theory Spec2Isabelle
  imports Complex_Main "HOL-Library.Multiset"
begin

section \<open>JavaScript values used by the service\<close>

text \<open>
  The service is TypeScript.  Three kinds of JavaScript values carry the behaviour that the
  properties below depend on: strings (addresses, amounts, hexadecimal quantities), BigInt
  (arbitrary-precision integers, HOL \<open>int\<close>) and Number (IEEE-754 binary64).  Strings are
  HOL strings; only the ASCII white space characters are treated as white space.
\<close>

subsection \<open>Digits and white space\<close>

definition digit_val :: "char \<Rightarrow> int option" where
  "digit_val c =
     (let n = (of_char c :: int) in
      if 48 \<le> n \<and> n \<le> 57 then Some (n - 48)
      else if 97 \<le> n \<and> n \<le> 102 then Some (n - 87)
      else if 65 \<le> n \<and> n \<le> 70 then Some (n - 55)
      else None)"

definition radix_digit :: "int \<Rightarrow> char \<Rightarrow> int option" where
  "radix_digit b c = (case digit_val c of None \<Rightarrow> None | Some d \<Rightarrow> if d < b then Some d else None)"

fun digits_value :: "int \<Rightarrow> int \<Rightarrow> string \<Rightarrow> int option" where
  "digits_value b acc [] = Some acc"
| "digits_value b acc (c # cs) =
     (case radix_digit b c of None \<Rightarrow> None | Some d \<Rightarrow> digits_value b (acc * b + d) cs)"

definition nonempty_digits :: "int \<Rightarrow> string \<Rightarrow> int option" where
  "nonempty_digits b ds = (if ds = [] then None else digits_value b 0 ds)"

definition is_space :: "char \<Rightarrow> bool" where
  "is_space c = ((of_char c :: int) \<in> {32, 9, 10, 11, 12, 13})"

definition trim :: "string \<Rightarrow> string" where
  "trim s = rev (dropWhile is_space (rev (dropWhile is_space s)))"

definition digit_char :: "int \<Rightarrow> char" where
  "digit_char d = (if d < 10 then char_of (48 + d) else char_of (87 + d))"

text \<open>The digits of a non-negative integer in base \<open>b\<close>, most significant first.\<close>

function nat_digits :: "int \<Rightarrow> int \<Rightarrow> string" where
  "nat_digits b n =
     (if b < 2 \<or> n < b then [digit_char n] else nat_digits b (n div b) @ [digit_char (n mod b)])"
  by pat_completeness auto
termination
  by (relation "measure (\<lambda>(b, n). nat n)") (auto simp: pos_imp_zdiv_pos_iff intro!: int_div_less_self)

declare nat_digits.simps [simp del]

subsection \<open>BigInt\<close>

text \<open>
  \<open>BigInt(s)\<close> on a string: white space is trimmed, the empty string is \<open>0n\<close>, a
  radix prefix takes unsigned digits, a decimal literal takes an optional sign; anything
  else throws a SyntaxError (\<open>None\<close>).
\<close>

definition StringToBigInt :: "string \<Rightarrow> int option" where
  "StringToBigInt str =
     (let s = trim str in
      if s = [] then Some 0
      else if take 2 s = ''0x'' \<or> take 2 s = ''0X'' then nonempty_digits 16 (drop 2 s)
      else if take 2 s = ''0o'' \<or> take 2 s = ''0O'' then nonempty_digits 8 (drop 2 s)
      else if take 2 s = ''0b'' \<or> take 2 s = ''0B'' then nonempty_digits 2 (drop 2 s)
      else if hd s = CHR ''-'' then map_option uminus (nonempty_digits 10 (tl s))
      else if hd s = CHR ''+'' then nonempty_digits 10 (tl s)
      else nonempty_digits 10 s)"

definition SyntaxError :: "string \<Rightarrow> string" where
  "SyntaxError s = ''Cannot convert '' @ s @ '' to a BigInt''"

text \<open>\<open>x.toString(radix)\<close> on a BigInt.\<close>

definition bigint_toString :: "int \<Rightarrow> int \<Rightarrow> string" where
  "bigint_toString b i = (if i < 0 then CHR ''-'' # nat_digits b (- i) else nat_digits b i)"

text \<open>BigInt division truncates towards zero.\<close>

definition bigint_div :: "int \<Rightarrow> int \<Rightarrow> int" where
  "bigint_div a b = sgn a * sgn b * (\<bar>a\<bar> div \<bar>b\<bar>)"

subsection \<open>Number: IEEE-754 binary64\<close>

text \<open>
  A finite Number is the rational it denotes; \<open>fl\<close> rounds an exact result to the
  nearest representable one (ties to even, 53 significant bits, subnormals below
  \<open>2 ^ -1022\<close>, overflow to an infinity).  The sign of zero is not represented: none of
  the functions below can observe it.
\<close>

datatype jsnum = NaN | PosInf | NegInf | Fin rat

definition pow2 :: "int \<Rightarrow> rat" where
  "pow2 e = (if 0 \<le> e then 2 ^ nat e else 1 / 2 ^ nat (- e))"

text \<open>The number of binary digits of a positive integer.\<close>

function bit_length :: "int \<Rightarrow> int" where
  "bit_length n = (if n \<le> 0 then 0 else 1 + bit_length (n div 2))"
  by pat_completeness auto
termination
  by (relation "measure nat") auto

declare bit_length.simps [simp del]

text \<open>\<open>binade x\<close> is the exponent \<open>e\<close> with \<open>2 ^ e \<le> |x| < 2 ^ (e + 1)\<close>, for \<open>x \<noteq> 0\<close>.\<close>

definition binade :: "rat \<Rightarrow> int" where
  "binade x =
     (let (p, q) = quotient_of \<bar>x\<bar>;
          e = bit_length p - bit_length q
      in if pow2 e \<le> \<bar>x\<bar> then e else e - 1)"

definition round_half_even :: "rat \<Rightarrow> int" where
  "round_half_even y =
     (let f = \<lfloor>y\<rfloor>; d = y - of_int f
      in if d < 1 / 2 then f else if 1 / 2 < d then f + 1 else if even f then f else f + 1)"

definition fl :: "rat \<Rightarrow> jsnum" where
  "fl x =
     (if x = 0 then Fin 0
      else let q = pow2 (max (binade x - 52) (- 1074));
               r = of_int (round_half_even (x / q)) * q
           in if 2 ^ 1024 \<le> \<bar>r\<bar> then (if 0 < x then PosInf else NegInf) else Fin r)"

definition js_neg :: "jsnum \<Rightarrow> jsnum" where
  "js_neg a = (case a of NaN \<Rightarrow> NaN | PosInf \<Rightarrow> NegInf | NegInf \<Rightarrow> PosInf | Fin x \<Rightarrow> Fin (- x))"

definition js_add :: "jsnum \<Rightarrow> jsnum \<Rightarrow> jsnum" where
  "js_add a b =
     (case (a, b) of
        (Fin x, Fin y) \<Rightarrow> fl (x + y)
      | (NaN, _) \<Rightarrow> NaN
      | (_, NaN) \<Rightarrow> NaN
      | (PosInf, NegInf) \<Rightarrow> NaN
      | (NegInf, PosInf) \<Rightarrow> NaN
      | (Fin x, i) \<Rightarrow> i
      | (i, _) \<Rightarrow> i)"

definition js_sub :: "jsnum \<Rightarrow> jsnum \<Rightarrow> jsnum" where
  "js_sub a b = js_add a (js_neg b)"

definition signed_inf :: "bool \<Rightarrow> jsnum" where
  "signed_inf positive = (if positive then PosInf else NegInf)"

definition js_mul :: "jsnum \<Rightarrow> jsnum \<Rightarrow> jsnum" where
  "js_mul a b =
     (case (a, b) of
        (Fin x, Fin y) \<Rightarrow> fl (x * y)
      | (NaN, _) \<Rightarrow> NaN
      | (_, NaN) \<Rightarrow> NaN
      | (Fin x, i) \<Rightarrow> if x = 0 then NaN else signed_inf ((0 < x) = (i = PosInf))
      | (i, Fin y) \<Rightarrow> if y = 0 then NaN else signed_inf ((0 < y) = (i = PosInf))
      | (i, j) \<Rightarrow> signed_inf (i = j))"

definition js_div :: "jsnum \<Rightarrow> jsnum \<Rightarrow> jsnum" where
  "js_div a b =
     (case (a, b) of
        (Fin x, Fin y) \<Rightarrow>
          if y = 0 then (if x = 0 then NaN else signed_inf (0 < x)) else fl (x / y)
      | (NaN, _) \<Rightarrow> NaN
      | (_, NaN) \<Rightarrow> NaN
      | (Fin x, _) \<Rightarrow> Fin 0
      | (i, Fin y) \<Rightarrow> signed_inf ((0 \<le> y) = (i = PosInf))
      | (_, _) \<Rightarrow> NaN)"

definition Math_floor :: "jsnum \<Rightarrow> jsnum" where
  "Math_floor a = (case a of Fin x \<Rightarrow> Fin (of_int \<lfloor>x\<rfloor>) | _ \<Rightarrow> a)"

text \<open>
  \<open>parseInt(s, 16)\<close>: leading white space and a sign are skipped, then an optional
  \<open>0x\<close>, then the longest run of hexadecimal digits is read; no digit gives NaN.
\<close>

definition parseInt16 :: "string \<Rightarrow> jsnum" where
  "parseInt16 str =
     (let s = dropWhile is_space str;
          negative = (s \<noteq> [] \<and> hd s = CHR ''-'');
          s1 = (if s \<noteq> [] \<and> (hd s = CHR ''-'' \<or> hd s = CHR ''+'') then tl s else s);
          s2 = (if take 2 s1 = ''0x'' \<or> take 2 s1 = ''0X'' then drop 2 s1 else s1);
          ds = takeWhile (\<lambda>c. radix_digit 16 c \<noteq> None) s2
      in if ds = [] then NaN
         else let n = fl (of_int (the (digits_value 16 0 ds)))
              in if negative then js_neg n else n)"

text \<open>
  \<open>x.toString(16)\<close> on a Number, for the values that reach it in this program: NaN, the
  infinities and integers.  A fractional argument cannot arise there (both call sites pass
  a floor plus an integer, or a difference of integers); for it only the integer part is
  rendered.
\<close>

definition number_toString16 :: "jsnum \<Rightarrow> string" where
  "number_toString16 a =
     (case a of
        NaN \<Rightarrow> ''NaN''
      | PosInf \<Rightarrow> ''Infinity''
      | NegInf \<Rightarrow> ''-Infinity''
      | Fin x \<Rightarrow> (if x < 0 then CHR ''-'' # nat_digits 16 \<lfloor>- x\<rfloor> else nat_digits 16 \<lfloor>x\<rfloor>))"


definition num :: "int \<Rightarrow> jsnum" where
  "num n = fl (of_int n)"

section \<open>The persistent store and the environment\<close>

text \<open>
  A row of table \<open>batched_transactions\<close>; the service maps it field by field to the
  interface \<open>BatchTransaction\<close>, whose names are used here for both.  The surrogate key
  \<open>id\<close> is never read by the service and is left out.  Timestamps are natural numbers.
\<close>

datatype status = pending | scheduled | executing | completed | failed

record BatchTransaction =
  batchId :: string
  userAddress :: string
  toAddress :: string
  amount :: string
  tokenAddress :: "string option"
  gasEstimate :: "int option"
  status :: status
  scheduledFor :: "nat option"
  createdAt :: nat
  executedAt :: "nat option"
  txHash :: "string option"
  errorMessage :: "string option"

text \<open>A row of table \<open>gas_analytics\<close>.\<close>

record BatchAnalytics =
  dapp_id :: string
  totalGasSaved :: int
  totalBatches :: int
  totalTransactions :: int
  averageBatchSize :: jsnum
  lastUpdated :: nat

text \<open>
  The world a call runs in: the two tables, and the log of the calls made to the wallet's
  \<open>sendTransaction(to, amount)\<close>.
\<close>

record world =
  batched_transactions :: "BatchTransaction list"
  gas_analytics :: "BatchAnalytics list"
  sent :: "(string \<times> string) list"

record TransactionObject =
  tx_from :: string
  tx_to :: "string option"
  tx_gas :: "string option"
  tx_gasPrice :: "string option"
  tx_value :: "string option"
  tx_data :: "string option"
  tx_nonce :: "string option"

text \<open>
  Every operation on the connection pool can throw.  The places where the service awaits
  one are named; \<open>fault env op = Some msg\<close> says that this operation throws \<open>msg\<close>
  and leaves the tables as they are.  A violated column constraint is such a throw.  The
  per-transaction statements of \<open>executeBatch\<close> carry the index of the loop iteration.
\<close>

datatype db_op =
    Connect
  | InsertTransaction
  | SelectPending
  | SelectTransaction
  | MarkExecuting
  | MarkCompleted nat
  | MarkFailed nat
  | MarkAllFailed
  | AnalyticsConnect
  | SelectAnalytics
  | WriteAnalytics

text \<open>
  The environment of one call: the faults, the clock (\<open>NOW()\<close>), the result of
  \<open>generateBatchId\<close>, the hash that \<open>Math.random\<close> yields in each loop iteration of
  \<open>executeBatch\<close>, and the answer of the network's \<open>eth_estimateGas\<close> (\<open>Inl\<close> when
  \<open>makeRPCCall\<close> throws).
\<close>

record env =
  fault :: "db_op \<Rightarrow> string option"
  now :: nat
  generateBatchId :: string
  mockTxHash :: "nat \<Rightarrow> string"
  estimateGas :: "TransactionObject \<Rightarrow> string + string"

subsection \<open>Promises: a result or a thrown message, and the world afterwards\<close>

type_synonym 'a promise = "world \<Rightarrow> (string + 'a) \<times> world"

definition returnE :: "'a \<Rightarrow> 'a promise" where
  "returnE x w = (Inr x, w)"

definition throwE :: "string \<Rightarrow> 'a promise" where
  "throwE e w = (Inl e, w)"

definition bindE :: "'a promise \<Rightarrow> ('a \<Rightarrow> 'b promise) \<Rightarrow> 'b promise" where
  "bindE m k w = (case m w of (Inl e, w') \<Rightarrow> (Inl e, w') | (Inr x, w') \<Rightarrow> k x w')"

definition catchE :: "'a promise \<Rightarrow> (string \<Rightarrow> 'a promise) \<Rightarrow> 'a promise" where
  "catchE m h w = (case m w of (Inl e, w') \<Rightarrow> h e w' | (Inr x, w') \<Rightarrow> (Inr x, w'))"

text \<open>\<open>client.query\<close> of a statement that changes table \<open>batched_transactions\<close>.\<close>

definition query :: "env \<Rightarrow> db_op \<Rightarrow> (BatchTransaction list \<Rightarrow> BatchTransaction list) \<Rightarrow> unit promise" where
  "query env op f w =
     (case fault env op of
        Some e \<Rightarrow> (Inl e, w)
      | None \<Rightarrow> (Inr (), w\<lparr>batched_transactions := f (batched_transactions w)\<rparr>))"

definition connect :: "env \<Rightarrow> db_op \<Rightarrow> unit promise" where
  "connect env op w = (case fault env op of Some e \<Rightarrow> (Inl e, w) | None \<Rightarrow> (Inr (), w))"

text \<open>The three UPDATE statements, \<open>WHERE batch_id = ANY(ids)\<close>.\<close>

definition set_executing :: "string list \<Rightarrow> BatchTransaction list \<Rightarrow> BatchTransaction list" where
  "set_executing ids rows =
     map (\<lambda>r. if batchId r \<in> set ids then r\<lparr>status := executing\<rparr> else r) rows"

definition set_completed :: "nat \<Rightarrow> string \<Rightarrow> string list \<Rightarrow> BatchTransaction list \<Rightarrow> BatchTransaction list" where
  "set_completed t h ids rows =
     map (\<lambda>r. if batchId r \<in> set ids
               then r\<lparr>status := completed, executedAt := Some t, txHash := Some h\<rparr> else r) rows"

definition set_failed :: "string \<Rightarrow> string list \<Rightarrow> BatchTransaction list \<Rightarrow> BatchTransaction list" where
  "set_failed msg ids rows =
     map (\<lambda>r. if batchId r \<in> set ids then r\<lparr>status := failed, errorMessage := Some msg\<rparr> else r) rows"

section \<open>The batching service\<close>

subsection \<open>updateAnalytics\<close>

record updates =
  batchCount :: "int option"
  transactionCount :: "int option"
  gasSaved :: "int option"

definition or0 :: "int option \<Rightarrow> int" where
  "or0 x = (case x of None \<Rightarrow> 0 | Some v \<Rightarrow> v)"

text \<open>
  The counters are 32-bit columns, so their sums are exact in Number arithmetic; the
  average is a Number quotient and is kept as it is passed to the statement.
\<close>

definition updateAnalytics :: "env \<Rightarrow> string \<Rightarrow> updates \<Rightarrow> unit promise" where
  "updateAnalytics env dappId u w =
     (case fault env AnalyticsConnect of Some e \<Rightarrow> (Inl e, w) | None \<Rightarrow>
      case fault env SelectAnalytics of Some e \<Rightarrow> (Inl e, w) | None \<Rightarrow>
      case filter (\<lambda>a. dapp_id a = dappId) (gas_analytics w) of
        [] \<Rightarrow>
          (case fault env WriteAnalytics of Some e \<Rightarrow> (Inl e, w) | None \<Rightarrow>
           (Inr (), w\<lparr>gas_analytics := gas_analytics w @
              [\<lparr>dapp_id = dappId,
                totalGasSaved = or0 (gasSaved u),
                totalBatches = or0 (batchCount u),
                totalTransactions = or0 (transactionCount u),
                averageBatchSize =
                  (if or0 (transactionCount u) \<noteq> 0 \<and> or0 (batchCount u) \<noteq> 0
                   then js_div (num (or0 (transactionCount u))) (num (or0 (batchCount u)))
                   else Fin 0),
                lastUpdated = now env\<rparr>]\<rparr>))
      | current # _ \<Rightarrow>
          (let newTotalBatches = totalBatches current + or0 (batchCount u);
               newTotalTransactions = totalTransactions current + or0 (transactionCount u);
               newGasSaved = totalGasSaved current + or0 (gasSaved u)
           in case fault env WriteAnalytics of Some e \<Rightarrow> (Inl e, w) | None \<Rightarrow>
              (Inr (), w\<lparr>gas_analytics :=
                 map (\<lambda>a. if dapp_id a = dappId
                           then a\<lparr>totalGasSaved := newGasSaved,
                                  totalBatches := newTotalBatches,
                                  totalTransactions := newTotalTransactions,
                                  averageBatchSize :=
                                    (if 0 < newTotalBatches
                                     then js_div (num newTotalTransactions) (num newTotalBatches)
                                     else Fin 0),
                                  lastUpdated := now env\<rparr>
                           else a) (gas_analytics w)\<rparr>)))"

subsection \<open>executeImmediateTransaction\<close>

record ExecutionResult =
  success :: bool
  resultTxHash :: "string option"
  gasUsed :: "int option"
  error :: "string option"

text \<open>
  The wallet is the caller's: \<open>wallet to amount\<close> is the hash it returns, or \<open>Inl\<close> the
  message it throws.  Each call is logged in \<open>sent\<close>.
\<close>

definition sendTransaction :: "(string \<Rightarrow> string \<Rightarrow> string + string) \<Rightarrow> string \<Rightarrow> string \<Rightarrow> string promise" where
  "sendTransaction wallet to amt w = (wallet to amt, w\<lparr>sent := sent w @ [(to, amt)]\<rparr>)"

definition BigInt :: "string \<Rightarrow> int promise" where
  "BigInt s w = (case StringToBigInt s of None \<Rightarrow> (Inl (SyntaxError s), w) | Some i \<Rightarrow> (Inr i, w))"


subsection \<open>executeBatch\<close>

text \<open>
  The loop over the transactions.  The hash is pushed and the gas is added before the
  UPDATE is awaited; when the UPDATE throws, the handler marks the one record failed, and
  when that statement throws too the loop is left for the outer handler.
\<close>

fun batch_loop :: "env \<Rightarrow> nat \<Rightarrow> BatchTransaction list \<Rightarrow> int \<times> string list \<Rightarrow> (int \<times> string list) promise" where
  "batch_loop env i [] acc = returnE acc"
| "batch_loop env i (tx # txs) acc =
     (let txHashes = snd acc @ [mockTxHash env i];
          totalGasUsed = fst acc + 21000
      in bindE
           (catchE
              (query env (MarkCompleted i) (set_completed (now env) (mockTxHash env i) [batchId tx]))
              (\<lambda>txError. query env (MarkFailed i) (set_failed txError [batchId tx])))
           (\<lambda>_. batch_loop env (Suc i) txs (totalGasUsed, txHashes)))"

definition executeBatch :: "env \<Rightarrow> BatchTransaction list \<Rightarrow> ExecutionResult promise" where
  "executeBatch env transactions =
     (if transactions = []
      then returnE \<lparr>success = False, resultTxHash = None, gasUsed = None,
                    error = Some ''No transactions to execute''\<rparr>
      else
        bindE (connect env Connect) (\<lambda>_.
          catchE
            (bindE (query env MarkExecuting (set_executing (map batchId transactions))) (\<lambda>_.
             bindE (batch_loop env 0 transactions (0, [])) (\<lambda>acc.
             bindE (updateAnalytics env ''default''
                      \<lparr>batchCount = Some 1,
                       transactionCount = Some (int (length transactions)),
                       gasSaved = Some (bigint_div (fst acc * 30) 100)\<rparr>) (\<lambda>_.
             returnE \<lparr>success = True,
                      resultTxHash = (case snd acc of [] \<Rightarrow> None | h # _ \<Rightarrow> Some h),
                      gasUsed = Some (fst acc), error = None\<rparr>))))
            (\<lambda>errorMessage.
               bindE (query env MarkAllFailed (set_failed errorMessage (map batchId transactions))) (\<lambda>_.
               returnE \<lparr>success = False, resultTxHash = None, gasUsed = None,
                        error = Some errorMessage\<rparr>))))"

subsection \<open>addToBatch and estimateTransactionGas\<close>

text \<open>
  \<open>estimateTransactionGas\<close> wraps everything in one \<open>try\<close>: the conversion of the
  value, the network call and the conversion of the answer; whichever throws, the result
  is 21000.  It returns a BigInt and never rejects.
\<close>

definition estimateTransactionGas :: "env \<Rightarrow> TransactionObject \<Rightarrow> int" where
  "estimateTransactionGas env transaction =
     (case (case tx_value transaction of
              None \<Rightarrow> Some None
            | Some v \<Rightarrow>
                if v = [] then Some None
                else map_option (\<lambda>i. Some (''0x'' @ bigint_toString 16 i)) (StringToBigInt v)) of
        None \<Rightarrow> 21000
      | Some formatted \<Rightarrow>
          (case estimateGas env (transaction\<lparr>tx_value := formatted\<rparr>) of
             Inl _ \<Rightarrow> 21000
           | Inr gasHex \<Rightarrow> (case StringToBigInt gasHex of None \<Rightarrow> 21000 | Some g \<Rightarrow> g)))"

definition addToBatch ::
    "env \<Rightarrow> string \<Rightarrow> string \<Rightarrow> string \<Rightarrow> string option \<Rightarrow> nat option \<Rightarrow> string promise" where
  "addToBatch env user to amt token sched =
     bindE (connect env Connect) (\<lambda>_.
       catchE
         (bindE (query env InsertTransaction (\<lambda>rows. rows @
            [\<lparr>batchId = generateBatchId env, userAddress = user, toAddress = to, amount = amt,
              tokenAddress = token,
              gasEstimate = Some (estimateTransactionGas env
                \<lparr>tx_from = user, tx_to = Some to, tx_gas = None, tx_gasPrice = None,
                 tx_value = Some amt, tx_data = None, tx_nonce = None\<rparr>),
              status = pending, scheduledFor = sched, createdAt = now env, executedAt = None,
              txHash = None, errorMessage = None\<rparr>])) (\<lambda>_.
          returnE (generateBatchId env)))
         (\<lambda>e. throwE (''Failed to add transaction to batch: '' @ e)))"

subsection \<open>getPendingTransactions\<close>

definition getPendingTransactions :: "env \<Rightarrow> int \<Rightarrow> BatchTransaction list promise" where
  "getPendingTransactions env limit =
     bindE (connect env Connect) (\<lambda>_.
     bindE (connect env SelectPending) (\<lambda>_ w.
       if limit < 0 then throwE ''LIMIT must not be negative'' w
       else returnE (take (nat limit)
              (sort_key createdAt (filter (\<lambda>r. status r = pending) (batched_transactions w)))) w))"

subsection \<open>optimizeBatch\<close>

text \<open>The key of the \<open>Map\<close>: a template string, with \<open>tokenAddress || 'native'\<close>.\<close>

definition group_key :: "BatchTransaction \<Rightarrow> string" where
  "group_key tx =
     toAddress tx @ ''_'' @
       (case tokenAddress tx of None \<Rightarrow> ''native'' | Some t \<Rightarrow> if t = [] then ''native'' else t)"

text \<open>The \<open>Map\<close> is an association list in insertion order, as \<open>Map\<close> iterates.\<close>

definition groups_push :: "(string \<times> BatchTransaction list) list \<Rightarrow> BatchTransaction \<Rightarrow> (string \<times> BatchTransaction list) list" where
  "groups_push groups tx =
     (let key = group_key tx;
          groups1 = (if key \<in> fst ` set groups then groups else groups @ [(key, [])])
      in map (\<lambda>(k, g). if k = key then (k, g @ [tx]) else (k, g)) groups1)"

fun reduce_amounts :: "int \<Rightarrow> BatchTransaction list \<Rightarrow> string + int" where
  "reduce_amounts acc [] = Inr acc"
| "reduce_amounts acc (tx # txs) =
     (case StringToBigInt (amount tx) of
        None \<Rightarrow> Inl (SyntaxError (amount tx))
      | Some a \<Rightarrow> reduce_amounts (acc + a) txs)"

definition compare_groups :: "BatchTransaction list \<Rightarrow> BatchTransaction list \<Rightarrow> string + int" where
  "compare_groups a b =
     (case reduce_amounts 0 a of
        Inl e \<Rightarrow> Inl e
      | Inr aTotal \<Rightarrow>
          (case reduce_amounts 0 b of
             Inl e \<Rightarrow> Inl e
           | Inr bTotal \<Rightarrow> Inr (if aTotal < bTotal then 1 else - 1)))"

text \<open>
  \<open>Array.prototype.sort\<close> with a comparison function.  The algorithm is the engine's; it
  is modelled as an insertion sort that places \<open>x\<close> before \<open>y\<close> when the comparison of
  \<open>x\<close> with \<open>y\<close> is negative, and that rethrows what the comparison throws.  With fewer
  than two elements the comparison is never called.
\<close>

fun insert_sorted :: "('a \<Rightarrow> 'a \<Rightarrow> string + int) \<Rightarrow> 'a \<Rightarrow> 'a list \<Rightarrow> string + 'a list" where
  "insert_sorted cmp x [] = Inr [x]"
| "insert_sorted cmp x (y # ys) =
     (case cmp x y of
        Inl e \<Rightarrow> Inl e
      | Inr c \<Rightarrow>
          if c < 0 then Inr (x # y # ys)
          else (case insert_sorted cmp x ys of Inl e \<Rightarrow> Inl e | Inr zs \<Rightarrow> Inr (y # zs)))"

fun array_sort :: "('a \<Rightarrow> 'a \<Rightarrow> string + int) \<Rightarrow> 'a list \<Rightarrow> string + 'a list" where
  "array_sort cmp [] = Inr []"
| "array_sort cmp (x # xs) =
     (case array_sort cmp xs of Inl e \<Rightarrow> Inl e | Inr ys \<Rightarrow> insert_sorted cmp x ys)"

definition optimizeBatch :: "BatchTransaction list \<Rightarrow> string + BatchTransaction list list" where
  "optimizeBatch transactions =
     array_sort compare_groups (map snd (foldl groups_push [] transactions))"

subsection \<open>processAutoBatching\<close>

datatype frequency = immediate | hourly | daily | weekly

record BatchConfig =
  dappId :: string
  maxBatchSize :: int
  executionFrequency :: frequency
  minTransactionCount :: int
  maxWaitTime :: int

text \<open>
  The loop over the optimized batches; the \<open>k\<close>-th batch that is executed runs in the
  environment \<open>benv k\<close>.  The result of \<open>executeBatch\<close> is only logged.
\<close>

fun run_batches :: "(nat \<Rightarrow> env) \<Rightarrow> int \<Rightarrow> nat \<Rightarrow> BatchTransaction list list \<Rightarrow> unit promise" where
  "run_batches benv minCount k [] = returnE ()"
| "run_batches benv minCount k (batch # rest) =
     (if minCount \<le> int (length batch)
      then bindE (executeBatch (benv k) batch) (\<lambda>_. run_batches benv minCount (Suc k) rest)
      else run_batches benv minCount (Suc k) rest)"

definition processAutoBatching :: "env \<Rightarrow> (nat \<Rightarrow> env) \<Rightarrow> BatchConfig \<Rightarrow> unit promise" where
  "processAutoBatching env benv config =
     bindE (getPendingTransactions env (maxBatchSize config)) (\<lambda>pendingTransactions.
       if int (length pendingTransactions) < minTransactionCount config then returnE ()
       else (case optimizeBatch pendingTransactions of
               Inl e \<Rightarrow> throwE e
             | Inr optimizedBatches \<Rightarrow>
                 run_batches benv (minTransactionCount config) 0 optimizedBatches))"

section \<open>The network client: estimateBatchGasSavings\<close>

record BatchGasSavings =
  individualGas :: "string list"
  batchGas :: string
  totalSavings :: string
  savingsPercentage :: jsnum

text \<open>\<open>Promise.all\<close>: the results in order, or the first rejection.\<close>

fun promise_all :: "(string + 'a) list \<Rightarrow> string + 'a list" where
  "promise_all [] = Inr []"
| "promise_all (Inl e # ps) = Inl e"
| "promise_all (Inr x # ps) = (case promise_all ps of Inl e \<Rightarrow> Inl e | Inr xs \<Rightarrow> Inr (x # xs))"

text \<open>
  All arithmetic here is Number arithmetic: the literal \<open>0.7\<close> is the double nearest to
  7/10, and sum, product, difference and quotient are rounded.
\<close>

definition estimateBatchGasSavings :: "env \<Rightarrow> TransactionObject list \<Rightarrow> string + BatchGasSavings" where
  "estimateBatchGasSavings env transactions =
     (case promise_all (map (estimateGas env) transactions) of
        Inl e \<Rightarrow> Inl e
      | Inr individualEstimates \<Rightarrow>
          (let totalIndividualGas =
                 foldl (\<lambda>acc gas. js_add acc (parseInt16 gas)) (Fin 0) individualEstimates;
               batchOverhead = Fin 21000;
               estimatedBatchGas =
                 js_add (Math_floor (js_mul totalIndividualGas (fl (7 / 10)))) batchOverhead;
               savings = js_sub totalIndividualGas estimatedBatchGas
           in Inr \<lparr>individualGas = individualEstimates,
                   batchGas = ''0x'' @ number_toString16 estimatedBatchGas,
                   totalSavings = ''0x'' @ number_toString16 savings,
                   savingsPercentage = js_mul (js_div savings totalIndividualGas) (Fin 100)\<rparr>))"

section \<open>The HTTP routes\<close>

datatype response_body =
    ErrorBody string
  | BatchAdded string
  | SavingsData BatchGasSavings

record response =
  http_status :: nat
  body :: response_body

subsection \<open>POST /api/batch\<close>







subsection \<open>POST /api/shardeum\<close>

text \<open>
  The field \<open>transactions\<close> of the parsed body: \<open>None\<close> when it is absent or not an
  array, else the array.
\<close>

definition POST_shardeum :: "env \<Rightarrow> TransactionObject list option \<Rightarrow> response" where
  "POST_shardeum env transactions =
     (case transactions of
        None \<Rightarrow> \<lparr>http_status = 400, body = ErrorBody ''Invalid transactions array''\<rparr>
      | Some txs \<Rightarrow>
          (case estimateBatchGasSavings env txs of
             Inl e \<Rightarrow> \<lparr>http_status = 500, body = ErrorBody ''Failed to estimate gas savings''\<rparr>
           | Inr batchSavings \<Rightarrow> \<lparr>http_status = 200, body = SavingsData batchSavings\<rparr>))"

section \<open>Notions used in the statements\<close>

text \<open>
  A record is untouched by a call unless its batch id is among those the call names; in any
  case it keeps its batch id.  A promise keeps the table when, from every world, it leaves
  every record untouched in this sense.
\<close>

definition untouched_unless :: "string set \<Rightarrow> BatchTransaction \<Rightarrow> BatchTransaction \<Rightarrow> bool" where
  "untouched_unless ids r r' \<longleftrightarrow> batchId r' = batchId r \<and> (batchId r \<notin> ids \<longrightarrow> r' = r)"

definition keeps :: "string set \<Rightarrow> 'a promise \<Rightarrow> bool" where
  "keeps ids m \<longleftrightarrow>
     (\<forall>w. list_all2 (untouched_unless ids) (batched_transactions w)
            (batched_transactions (snd (m w))))"

text \<open>
  What one iteration of the loop of \<open>executeBatch\<close> records on a row, when its statements
  go through: the hash and the time if the UPDATE to \<open>completed\<close> succeeds, the message
  if it throws.
\<close>

definition settle :: "env \<Rightarrow> nat \<Rightarrow> BatchTransaction \<Rightarrow> BatchTransaction" where
  "settle env i r =
     (case fault env (MarkCompleted i) of
        None \<Rightarrow> r\<lparr>status := completed, executedAt := Some (now env), txHash := Some (mockTxHash env i)\<rparr>
      | Some e \<Rightarrow> r\<lparr>status := failed, errorMessage := Some e\<rparr>)"

fun index_of :: "('a \<Rightarrow> bool) \<Rightarrow> 'a list \<Rightarrow> nat option" where
  "index_of P [] = None"
| "index_of P (x # xs) = (if P x then Some 0 else map_option Suc (index_of P xs))"

text \<open>
  The outcome recorded on a row by a batch: the row as it is when no transaction of the
  batch carries its batch id, else the row settled by the iteration of that transaction.
\<close>

definition recorded_outcome :: "env \<Rightarrow> nat \<Rightarrow> BatchTransaction list \<Rightarrow> BatchTransaction \<Rightarrow> BatchTransaction" where
  "recorded_outcome env i txs r =
     (case index_of (\<lambda>tx. batchId tx = batchId r) txs of
        None \<Rightarrow> r
      | Some j \<Rightarrow> settle env (i + j) r)"

text \<open>The rows after the iterations \<open>i, i + 1, \<dots>\<close> over \<open>txs\<close>, when none is cut short.\<close>

fun apply_steps :: "env \<Rightarrow> nat \<Rightarrow> BatchTransaction list \<Rightarrow> BatchTransaction list \<Rightarrow> BatchTransaction list" where
  "apply_steps env i [] rows = rows"
| "apply_steps env i (tx # txs) rows =
     apply_steps env (Suc i) txs
       (map (\<lambda>r. if batchId r = batchId tx then settle env i r else r) rows)"

text \<open>
  The store operations of \<open>executeBatch\<close> outside the attempt of each transaction go
  through: the marking as executing, the recording of each failure, the analytics update.
\<close>

definition surroundings_ok :: "env \<Rightarrow> nat \<Rightarrow> bool" where
  "surroundings_ok env n \<longleftrightarrow>
     fault env MarkExecuting = None
     \<and> (\<forall>i<n. fault env (MarkCompleted i) \<noteq> None \<longrightarrow> fault env (MarkFailed i) = None)
     \<and> fault env AnalyticsConnect = None \<and> fault env SelectAnalytics = None
     \<and> fault env WriteAnalytics = None"

definition reports_success :: "(string + ExecutionResult) \<Rightarrow> bool" where
  "reports_success res = (case res of Inl e \<Rightarrow> False | Inr r \<Rightarrow> success r)"

text \<open>
  The summed amount of a group, each amount read as \<open>BigInt\<close> reads it, and the token of a
  transaction as the key renders it.
\<close>

definition amount_of :: "BatchTransaction \<Rightarrow> int" where
  "amount_of tx = (case StringToBigInt (amount tx) of None \<Rightarrow> 0 | Some a \<Rightarrow> a)"

definition summed :: "BatchTransaction list \<Rightarrow> int" where
  "summed g = sum_list (map amount_of g)"

definition token_label :: "BatchTransaction \<Rightarrow> string" where
  "token_label tx =
     (case tokenAddress tx of None \<Rightarrow> ''native'' | Some t \<Rightarrow> if t = [] then ''native'' else t)"

text \<open>
  The association list \<open>gs\<close> groups the list \<open>xs\<close>: its keys are distinct, they are the
  keys that occur in \<open>xs\<close>, and each key carries the transactions of \<open>xs\<close> with that key,
  in their order.  A group is parsable when each of its amounts converts to a BigInt.
\<close>

definition grouped :: "(string \<times> BatchTransaction list) list \<Rightarrow> BatchTransaction list \<Rightarrow> bool" where
  "grouped gs xs \<longleftrightarrow>
     distinct (map fst gs) \<and> fst ` set gs = group_key ` set xs
     \<and> (\<forall>(k, g) \<in> set gs. g = filter (\<lambda>t. group_key t = k) xs)"

definition parsable :: "BatchTransaction list \<Rightarrow> bool" where
  "parsable g \<longleftrightarrow> (\<forall>tx \<in> set g. StringToBigInt (amount tx) \<noteq> None)"

section \<open>Example data\<close>

definition no_fault :: "db_op \<Rightarrow> string option" where
  "no_fault op = None"

text \<open>An environment whose network is unreachable and whose store works.\<close>

definition offline_env :: env where
  "offline_env =
     \<lparr>fault = no_fault, now = 1000, generateBatchId = ''batch_1000_k3x9q2m1z'',
      mockTxHash = (\<lambda>i. if i = 0 then ''0x1a2b'' else ''0x3c4d''),
      estimateGas = (\<lambda>t. Inl ''HTTP error! status: 503'')\<rparr>"

definition address_a :: string where
  "address_a = ''0x'' @ replicate 40 CHR ''a''"

definition address_b :: string where
  "address_b = ''0x'' @ replicate 40 CHR ''b''"

definition example_row :: "string \<Rightarrow> string \<Rightarrow> status \<Rightarrow> BatchTransaction" where
  "example_row bid amt st =
     \<lparr>batchId = bid, userAddress = address_a, toAddress = address_b, amount = amt,
      tokenAddress = None, gasEstimate = Some 21000, status = st, scheduledFor = None,
      createdAt = 10, executedAt = None, txHash = None, errorMessage = None\<rparr>"

definition example_world :: "BatchTransaction list \<Rightarrow> world" where
  "example_world rows = \<lparr>batched_transactions = rows, gas_analytics = [], sent = []\<rparr>"

definition example_config :: BatchConfig where
  "example_config =
     \<lparr>dappId = ''default'', maxBatchSize = 50, executionFrequency = hourly,
      minTransactionCount = 5, maxWaitTime = 60\<rparr>"

definition three_pending :: "BatchTransaction list" where
  "three_pending =
     [example_row ''b1'' ''100'' pending, example_row ''b2'' ''200'' pending,
      example_row ''b3'' ''300'' pending]"





definition glitch_env :: "db_op \<Rightarrow> env" where
  "glitch_env op =
     offline_env\<lparr>fault := (\<lambda>site. if site = op then Some ''Connection terminated unexpectedly'' else None)\<rparr>"

definition pending_1 :: BatchTransaction where
  "pending_1 = example_row ''b1'' ''100'' pending"

definition pending_2 :: BatchTransaction where
  "pending_2 = example_row ''b2'' ''200'' pending"

definition pending_3 :: BatchTransaction where
  "pending_3 = example_row ''b3'' ''300'' pending"

text \<open>Transactions that differ in their token only, and amounts that are no integers.\<close>

definition native_transfer :: BatchTransaction where
  "native_transfer = example_row ''b1'' ''100'' pending"

definition named_native_transfer :: BatchTransaction where
  "named_native_transfer = (example_row ''b2'' ''200'' pending)\<lparr>tokenAddress := Some ''native''\<rparr>"

definition fractional_transfer :: BatchTransaction where
  "fractional_transfer = (example_row ''b3'' ''1.5'' pending)\<lparr>toAddress := address_a\<rparr>"

definition token_transfer :: BatchTransaction where
  "token_transfer = (example_row ''b4'' ''250'' pending)\<lparr>tokenAddress := Some address_a\<rparr>"

section \<open>Properties\<close>

subsection \<open>Basic facts about the building blocks\<close>

lemma getPendingTransactions_world:
  "snd (getPendingTransactions env limit w) = w"
  by (simp add: getPendingTransactions_def bindE_def connect_def returnE_def throwE_def
      split: option.splits)

lemma sent_query [simp]: "sent (snd (query env op f w)) = sent w"
  by (simp add: query_def split: option.splits)

lemma sent_updateAnalytics [simp]: "sent (snd (updateAnalytics env d u w)) = sent w"
  by (simp add: updateAnalytics_def Let_def split: option.splits list.splits)




lemma estimateTransactionGas_fallback:
  assumes "\<And>t. isl (estimateGas env t)"
  shows "estimateTransactionGas env transaction = 21000"
proof -
  have "\<And>t x. estimateGas env t \<noteq> Inr x"
    using assms by (metis sum.disc(2))
  then show ?thesis
    unfolding estimateTransactionGas_def
    by (auto split: option.splits sum.splits)
qed

subsection \<open>Rounding is exact on integers up to \<open>2 ^ 53\<close>\<close>












subsection \<open>Number arithmetic at the values of the examples\<close>






lemma zero_times: "js_mul (Fin 0) (fl (7 / 10)) = Fin 0"
  by code_simp

lemma empty_batch_gas: "js_add (Math_floor (Fin 0)) (Fin 21000) = Fin 21000"
  by code_simp

lemma empty_savings: "js_sub (Fin 0) (Fin 21000) = Fin (- 21000)"
  by code_simp

lemma empty_percentage: "js_mul (js_div (Fin (- 21000)) (Fin 0)) (Fin 100) = NegInf"
  by code_simp

lemma hex_21000: "number_toString16 (Fin 21000) = ''5208''"
  by code_simp

lemma hex_minus_21000: "number_toString16 (Fin (- 21000)) = ''-5208''"
  by code_simp

subsection \<open>Records that a call does not name\<close>

lemma untouched_refl: "list_all2 (untouched_unless ids) rows rows"
  by (simp add: list_all2_same untouched_unless_def)


lemma untouched_map:
  assumes "\<And>r. batchId (f r) = batchId r" "\<And>r. batchId r \<notin> ids \<Longrightarrow> f r = r"
  shows "list_all2 (untouched_unless ids) rows (map f rows)"
  using assms by (simp add: list_all2_map2 list_all2_same untouched_unless_def)


lemma keeps_throwE [intro!]: "keeps ids (throwE e)"
  by (simp add: keeps_def throwE_def untouched_refl)


lemma keeps_BigInt [intro!]: "keeps ids (BigInt s)"
  by (simp add: keeps_def BigInt_def untouched_refl split: option.splits)

lemma keeps_sendTransaction [intro!]: "keeps ids (sendTransaction wallet to amt)"
  by (simp add: keeps_def sendTransaction_def untouched_refl)

lemma keeps_updateAnalytics [intro!]: "keeps ids (updateAnalytics env d u)"
  by (simp add: keeps_def updateAnalytics_def Let_def untouched_refl
      split: option.splits list.splits)



lemma keeps_query:
  assumes "\<And>r. batchId (f r) = batchId r" "\<And>r. batchId r \<notin> ids \<Longrightarrow> f r = r"
  shows "keeps ids (query env op (map f))"
  using untouched_map [of f ids, OF assms]
  by (simp add: keeps_def query_def untouched_refl split: option.splits)

lemma keeps_set_executing [intro!]:
  "set l \<subseteq> ids \<Longrightarrow> keeps ids (query env op (set_executing l))"
  unfolding set_executing_def by (rule keeps_query) auto

lemma keeps_set_completed [intro!]:
  "set l \<subseteq> ids \<Longrightarrow> keeps ids (query env op (set_completed t h l))"
  unfolding set_completed_def by (rule keeps_query) auto

lemma keeps_set_failed [intro!]:
  "set l \<subseteq> ids \<Longrightarrow> keeps ids (query env op (set_failed msg l))"
  unfolding set_failed_def by (rule keeps_query) auto




subsection \<open>The loop of executeBatch\<close>

lemma settle_batchId [simp]: "batchId (settle env i r) = batchId r"
  by (simp add: settle_def split: option.splits)

lemma settle_executing [simp]: "settle env i (r\<lparr>status := executing\<rparr>) = settle env i r"
  by (simp add: settle_def split: option.splits)

lemma updateAnalytics_rows [simp]:
  "batched_transactions (snd (updateAnalytics env d u w)) = batched_transactions w"
  by (simp add: updateAnalytics_def Let_def split: option.splits list.splits)

lemma updateAnalytics_ok:
  assumes "fault env AnalyticsConnect = None" "fault env SelectAnalytics = None"
    "fault env WriteAnalytics = None"
  shows "fst (updateAnalytics env d u w) = Inr ()"
  using assms by (simp add: updateAnalytics_def Let_def split: list.splits)

lemma updateAnalytics_ok_cases:
  assumes "fault env AnalyticsConnect = None" "fault env SelectAnalytics = None"
    "fault env WriteAnalytics = None" "updateAnalytics env d u w = (res, w')"
  shows "res = Inr () \<and> batched_transactions w' = batched_transactions w"
  using updateAnalytics_ok [OF assms(1-3), of d u w] updateAnalytics_rows [of env d u w] assms(4)
  by simp

lemma updateAnalytics_fails:
  assumes "\<not> (fault env AnalyticsConnect = None \<and> fault env SelectAnalytics = None
             \<and> fault env WriteAnalytics = None)"
  shows "\<exists>e. fst (updateAnalytics env d u w) = Inl e"
  using assms by (auto simp: updateAnalytics_def Let_def split: list.splits option.splits)

lemma batch_loop_ok:
  assumes "\<forall>j<length txs. fault env (MarkCompleted (i + j)) \<noteq> None \<longrightarrow>
             fault env (MarkFailed (i + j)) = None"
  shows "batch_loop env i txs acc w =
     (Inr (fst acc + 21000 * int (length txs),
           snd acc @ map (mockTxHash env) [i..<i + length txs]),
      w\<lparr>batched_transactions := apply_steps env i txs (batched_transactions w)\<rparr>)"
  using assms
proof (induction txs arbitrary: i acc w)
  case Nil
  show ?case by (simp add: returnE_def)
next
  case (Cons tx txs)
  have here: "fault env (MarkCompleted i) \<noteq> None \<longrightarrow> fault env (MarkFailed i) = None"
    using Cons.prems by (auto dest: spec [of _ 0])
  have later: "\<forall>j<length txs. fault env (MarkCompleted (Suc i + j)) \<noteq> None \<longrightarrow>
             fault env (MarkFailed (Suc i + j)) = None"
    using Cons.prems by (auto dest: spec [of _ "Suc j" for j])
  have step: "catchE
        (query env (MarkCompleted i) (set_completed (now env) (mockTxHash env i) [batchId tx]))
        (\<lambda>txError. query env (MarkFailed i) (set_failed txError [batchId tx])) w =
     (Inr (), w\<lparr>batched_transactions :=
        map (\<lambda>r. if batchId r = batchId tx then settle env i r else r) (batched_transactions w)\<rparr>)"
    using here
    by (auto simp: catchE_def query_def settle_def set_completed_def set_failed_def
        split: option.splits)
  have upt: "[i..<i + length (tx # txs)] = i # [Suc i..<Suc i + length txs]"
    by (simp add: upt_rec)
  show ?case
    by (simp only: batch_loop.simps Let_def bindE_def step Cons.IH [OF later] upt)
       (simp add: algebra_simps)
qed

lemma batch_loop_fails:
  assumes "j < length txs" "fault env (MarkCompleted (i + j)) \<noteq> None"
    "fault env (MarkFailed (i + j)) \<noteq> None"
  shows "\<exists>e. fst (batch_loop env i txs acc w) = Inl e"
  using assms
proof (induction txs arbitrary: i j acc w)
  case Nil
  then show ?case by simp
next
  case (Cons tx txs)
  show ?case
  proof (cases "fault env (MarkCompleted i) \<noteq> None \<and> fault env (MarkFailed i) \<noteq> None")
    case True
    then show ?thesis
      by (auto simp: Let_def bindE_def catchE_def query_def split: option.splits)
  next
    case False
    then have j: "j \<noteq> 0" using Cons.prems by (cases j) auto
    then obtain j' where j': "j = Suc j'" by (cases j) auto
    have ih: "\<And>acc' w'. \<exists>e. fst (batch_loop env (Suc i) txs acc' w') = Inl e"
      using Cons.prems j' by (intro Cons.IH [of j']) auto
    obtain res w1 where first: "catchE
        (query env (MarkCompleted i) (set_completed (now env) (mockTxHash env i) [batchId tx]))
        (\<lambda>txError. query env (MarkFailed i) (set_failed txError [batchId tx])) w = (res, w1)"
      by (cases "catchE
        (query env (MarkCompleted i) (set_completed (now env) (mockTxHash env i) [batchId tx]))
        (\<lambda>txError. query env (MarkFailed i) (set_failed txError [batchId tx])) w")
    show ?thesis
    proof (cases res)
      case (Inl e)
      with first show ?thesis by (simp add: Let_def bindE_def)
    next
      case (Inr u)
      with first ih show ?thesis by (simp add: Let_def bindE_def)
    qed
  qed
qed

lemma index_of_None: "index_of P xs = None \<longleftrightarrow> (\<forall>x \<in> set xs. \<not> P x)"
  by (induction xs) auto

lemma recorded_outcome_batchId [simp]: "batchId (recorded_outcome env i txs r) = batchId r"
  by (simp add: recorded_outcome_def split: option.splits)

lemma apply_steps_outcome:
  "distinct (map batchId txs) \<Longrightarrow>
   apply_steps env i txs rows = map (recorded_outcome env i txs) rows"
proof (induction txs arbitrary: i rows)
  case Nil
  show ?case by (simp add: recorded_outcome_def)
next
  case (Cons tx txs)
  have fresh: "\<forall>x \<in> set txs. batchId x \<noteq> batchId tx"
  proof
    fix x assume "x \<in> set txs"
    then have "batchId x \<in> set (map batchId txs)" by simp
    moreover have "batchId tx \<notin> set (map batchId txs)" using Cons.prems by simp
    ultimately show "batchId x \<noteq> batchId tx" by metis
  qed
  have "recorded_outcome env (Suc i) txs (if batchId r = batchId tx then settle env i r else r) =
        recorded_outcome env i (tx # txs) r" for r
  proof (cases "batchId r = batchId tx")
    case True
    then have "index_of (\<lambda>x. batchId x = batchId tx) txs = None"
      using fresh by (simp add: index_of_None)
    with True show ?thesis by (simp add: recorded_outcome_def)
  next
    case False
    then have "batchId tx \<noteq> batchId r" by simp
    then show ?thesis using False
      by (simp add: recorded_outcome_def split: option.splits)
  qed
  then show ?case using Cons by simp
qed

lemma recorded_outcome_set_executing:
  "map (recorded_outcome env i txs) (set_executing (map batchId txs) rows) =
   map (recorded_outcome env i txs) rows"
  by (auto simp: set_executing_def recorded_outcome_def index_of_None split: option.splits)

lemma executeBatch_success:
  assumes "transactions \<noteq> []" "fault env Connect = None"
    and "surroundings_ok env (length transactions)"
  shows "fst (executeBatch env transactions w) =
           Inr \<lparr>success = True, resultTxHash = Some (mockTxHash env 0),
                gasUsed = Some (21000 * int (length transactions)), error = None\<rparr>"
    and "batched_transactions (snd (executeBatch env transactions w)) =
           apply_steps env 0 transactions
             (set_executing (map batchId transactions) (batched_transactions w))"
proof -
  have loop: "\<forall>j<length transactions. fault env (MarkCompleted (0 + j)) \<noteq> None \<longrightarrow>
             fault env (MarkFailed (0 + j)) = None"
    using assms(3) by (simp add: surroundings_ok_def)
  have mark: "fault env MarkExecuting = None"
    using assms(3) by (simp add: surroundings_ok_def)
  have hashes: "map (mockTxHash env) [0..<length transactions] =
      mockTxHash env 0 # map (mockTxHash env) [1..<length transactions]"
    using assms(1) by (simp add: upt_rec)
  let ?u = "\<lparr>batchCount = Some 1, transactionCount = Some (int (length transactions)),
             gasSaved = Some (bigint_div (21000 * int (length transactions) * 30) 100)\<rparr>"
  let ?w2 = "w\<lparr>batched_transactions := apply_steps env 0 transactions
             (set_executing (map batchId transactions) (batched_transactions w))\<rparr>"
  have an: "res = Inr () \<and> batched_transactions w3 = batched_transactions w2"
    if "updateAnalytics env ''default'' u w2 = (res, w3)" for u w2 res w3
    using updateAnalytics_ok_cases [OF _ _ _ that] assms(3) by (simp add: surroundings_ok_def)
  have run: "fst (executeBatch env transactions w) =
       Inr \<lparr>success = True, resultTxHash = Some (mockTxHash env 0),
                gasUsed = Some (21000 * int (length transactions)), error = None\<rparr>
     \<and> batched_transactions (snd (executeBatch env transactions w)) = batched_transactions ?w2"
    using assms(1,2) mark
    by (auto simp: executeBatch_def bindE_def catchE_def connect_def query_def returnE_def
        batch_loop_ok [OF loop] hashes split: prod.splits sum.splits dest: an)
  show "fst (executeBatch env transactions w) =
           Inr \<lparr>success = True, resultTxHash = Some (mockTxHash env 0),
                gasUsed = Some (21000 * int (length transactions)), error = None\<rparr>"
    using run by simp
  show "batched_transactions (snd (executeBatch env transactions w)) =
           apply_steps env 0 transactions
             (set_executing (map batchId transactions) (batched_transactions w))"
    using run by simp
qed

lemma executeBatch_failure:
  assumes "transactions \<noteq> []" "fault env Connect = None"
    and "\<not> surroundings_ok env (length transactions)"
  shows "\<not> reports_success (fst (executeBatch env transactions w))"
proof -
  let ?body = "bindE (query env MarkExecuting (set_executing (map batchId transactions))) (\<lambda>_.
             bindE (batch_loop env 0 transactions (0, [])) (\<lambda>acc.
             bindE (updateAnalytics env ''default''
                      \<lparr>batchCount = Some 1,
                       transactionCount = Some (int (length transactions)),
                       gasSaved = Some (bigint_div (fst acc * 30) 100)\<rparr>) (\<lambda>_.
             returnE \<lparr>success = True,
                      resultTxHash = (case snd acc of [] \<Rightarrow> None | h # _ \<Rightarrow> Some h),
                      gasUsed = Some (fst acc), error = None\<rparr>)))"
  have body: "\<exists>e. fst (?body w) = Inl e"
  proof (cases "fault env MarkExecuting")
    case (Some e)
    then show ?thesis by (simp add: bindE_def query_def)
  next
    case None
    let ?w1 = "w\<lparr>batched_transactions :=
                   set_executing (map batchId transactions) (batched_transactions w)\<rparr>"
    show ?thesis
    proof (cases "\<forall>j<length transactions. fault env (MarkCompleted j) \<noteq> None \<longrightarrow>
             fault env (MarkFailed j) = None")
      case False
      then obtain j where "j < length transactions" "fault env (MarkCompleted (0 + j)) \<noteq> None"
        "fault env (MarkFailed (0 + j)) \<noteq> None" by auto
      then have "\<exists>e. fst (batch_loop env 0 transactions (0, []) ?w1) = Inl e"
        by (rule batch_loop_fails)
      then obtain e where "fst (batch_loop env 0 transactions (0, []) ?w1) = Inl e" ..
      then show ?thesis using None
        by (cases "batch_loop env 0 transactions (0, []) ?w1") (simp add: bindE_def query_def)
    next
      case True
      then have loop: "\<forall>j<length transactions. fault env (MarkCompleted (0 + j)) \<noteq> None \<longrightarrow>
             fault env (MarkFailed (0 + j)) = None" by simp
      have bad: "\<not> (fault env AnalyticsConnect = None \<and> fault env SelectAnalytics = None
             \<and> fault env WriteAnalytics = None)"
        using assms(3) None True by (simp add: surroundings_ok_def)
      show ?thesis
        using None updateAnalytics_fails [OF bad]
        apply (simp add: bindE_def query_def batch_loop_ok [OF loop])
        apply (simp split: prod.splits sum.splits)
        by (metis fst_conv sum.distinct(1))
    qed
  qed
  then obtain e w' where "?body w = (Inl e, w')"
    by (cases "?body w") auto
  then show ?thesis
    using assms(1,2)
    by (simp add: executeBatch_def bindE_def [of "connect env Connect"] connect_def catchE_def
        reports_success_def)
       (simp add: bindE_def query_def returnE_def split: option.splits)
qed

subsection \<open>Grouping and sorting\<close>

lemma grouped_empty: "grouped [] []"
  by (simp add: grouped_def)

lemma grouped_push:
  assumes "grouped gs xs"
  shows "grouped (groups_push gs tx) (xs @ [tx])"
proof (cases "group_key tx \<in> fst ` set gs")
  case True
  have eq: "groups_push gs tx =
      map (\<lambda>(k, g). if k = group_key tx then (k, g @ [tx]) else (k, g)) gs"
    using True by (simp add: groups_push_def)
  have fsts: "map fst (groups_push gs tx) = map fst gs"
    unfolding eq by (induction gs) (auto split: prod.splits)
  have "fst ` set (groups_push gs tx) = fst ` set gs"
    using fsts by (metis set_map)
  moreover have "\<forall>(k, g) \<in> set (groups_push gs tx). g = filter (\<lambda>t. group_key t = k) (xs @ [tx])"
    using assms unfolding eq grouped_def by (auto split: prod.splits if_splits)
  ultimately show ?thesis
    using assms True fsts by (auto simp: grouped_def)
next
  case False
  have eq: "groups_push gs tx = gs @ [(group_key tx, [tx])]"
  proof -
    have "map (\<lambda>(k, g). if k = group_key tx then (k, g @ [tx]) else (k, g)) gs = gs"
      using False by (induction gs) (auto split: prod.splits)
    then show ?thesis using False by (simp add: groups_push_def)
  qed
  have notin: "group_key tx \<notin> group_key ` set xs"
    using False assms by (simp add: grouped_def)
  have none: "filter (\<lambda>t. group_key t = group_key tx) xs = []"
    unfolding filter_empty_conv
  proof (intro ballI)
    fix x assume "x \<in> set xs"
    then have "group_key x \<in> group_key ` set xs" by simp
    with notin show "\<not> group_key x = group_key tx" by metis
  qed
  have old: "\<forall>(k, g) \<in> set gs. g = filter (\<lambda>t. group_key t = k) (xs @ [tx])"
  proof (intro ballI, clarify)
    fix k g assume kg: "(k, g) \<in> set gs"
    then have "k \<in> fst ` set gs" by force
    with False have "group_key tx \<noteq> k" by metis
    moreover have "g = filter (\<lambda>t. group_key t = k) xs"
      using assms kg by (auto simp: grouped_def)
    ultimately show "g = filter (\<lambda>t. group_key t = k) (xs @ [tx])" by simp
  qed
  have d: "distinct (map fst (gs @ [(group_key tx, [tx])]))"
    using assms False by (simp add: grouped_def)
  have keys: "fst ` set (gs @ [(group_key tx, [tx])]) = group_key ` set (xs @ [tx])"
    using assms by (simp add: grouped_def)
  have new: "[tx] = filter (\<lambda>t. group_key t = group_key tx) (xs @ [tx])"
    using none by simp
  show ?thesis
    unfolding eq grouped_def using d keys old new by auto
qed

lemma grouped_foldl:
  "grouped gs xs \<Longrightarrow> grouped (foldl groups_push gs ys) (xs @ ys)"
proof (induction ys arbitrary: gs xs)
  case Nil
  then show ?case by simp
next
  case (Cons y ys)
  have "grouped (foldl groups_push (groups_push gs y) ys) ((xs @ [y]) @ ys)"
    by (rule Cons.IH) (rule grouped_push [OF Cons.prems])
  then show ?case by simp
qed

lemma mset_by_keys:
  "distinct ks \<Longrightarrow>
   mset (concat (map (\<lambda>k. filter (\<lambda>t. f t = k) xs) ks)) = mset (filter (\<lambda>t. f t \<in> set ks) xs)"
proof (induction ks)
  case Nil
  show ?case by simp
next
  case (Cons k ks)
  then have "k \<notin> set ks" "distinct ks" by simp_all
  then show ?case
    using Cons.IH by (auto intro!: multiset_eqI)
qed

lemma grouped_values:
  assumes "grouped gs xs"
  shows "map snd gs = map (\<lambda>k. filter (\<lambda>t. group_key t = k) xs) (map fst gs)"
  using assms by (auto simp: grouped_def)

lemma grouped_partition:
  assumes "grouped gs xs"
  shows "mset (concat (map snd gs)) = mset xs"
proof -
  have d: "distinct (map fst gs)" using assms by (simp add: grouped_def)
  have all: "filter (\<lambda>t. group_key t \<in> set (map fst gs)) xs = xs"
    using assms by (auto simp: grouped_def filter_id_conv)
  show ?thesis
    by (simp only: grouped_values [OF assms] mset_by_keys [OF d] all)
qed

lemma grouped_nonempty:
  assumes "grouped gs xs" "(k, g) \<in> set gs"
  shows "g \<noteq> [] \<and> group_key (hd g) = k \<and> g = filter (\<lambda>t. group_key t = k) xs"
proof -
  have g: "g = filter (\<lambda>t. group_key t = k) xs" using assms by (auto simp: grouped_def)
  have keys: "fst ` set gs = group_key ` set xs" using assms(1) by (simp add: grouped_def)
  have "k \<in> fst ` set gs" using assms(2) by force
  then have "k \<in> group_key ` set xs" using keys by simp
  then obtain t where "t \<in> set xs" "group_key t = k" by auto
  then have "t \<in> set (filter (\<lambda>t. group_key t = k) xs)" by simp
  then have ne: "g \<noteq> []" unfolding g by (metis empty_iff list.set(1))
  then have "hd g \<in> set g" by simp
  then have "group_key (hd g) = k" by (subst (asm) g) simp
  with ne g show ?thesis by simp
qed



lemma reduce_amounts_ok:
  "\<forall>tx \<in> set g. StringToBigInt (amount tx) \<noteq> None \<Longrightarrow> reduce_amounts acc g = Inr (acc + summed g)"
  by (induction g arbitrary: acc) (auto simp: summed_def amount_of_def)

lemma compare_groups_ok:
  assumes "\<forall>tx \<in> set a. StringToBigInt (amount tx) \<noteq> None"
    "\<forall>tx \<in> set b. StringToBigInt (amount tx) \<noteq> None"
  shows "compare_groups a b = Inr (if summed a < summed b then 1 else - 1)"
  by (simp add: compare_groups_def reduce_amounts_ok [OF assms(1)] reduce_amounts_ok [OF assms(2)])

lemma insert_sorted_groups:
  assumes "parsable x" "\<forall>y \<in> set ys. parsable y"
  shows "\<exists>zs. insert_sorted compare_groups x ys = Inr zs \<and> mset zs = mset (x # ys)
     \<and> (sorted_wrt (\<lambda>a b. summed b \<le> summed a) ys \<longrightarrow> sorted_wrt (\<lambda>a b. summed b \<le> summed a) zs)"
  using assms(2)
proof (induction ys)
  case Nil
  show ?case by simp
next
  case (Cons y ys)
  have cmp: "compare_groups x y = Inr (if summed x < summed y then 1 else - 1)"
    using assms(1) Cons.prems by (intro compare_groups_ok) (simp_all add: parsable_def)
  show ?case
  proof (cases "summed x < summed y")
    case False
    then show ?thesis using cmp by (auto simp: not_less)
  next
    case True
    obtain zs where zs: "insert_sorted compare_groups x ys = Inr zs" "mset zs = mset (x # ys)"
      "sorted_wrt (\<lambda>a b. summed b \<le> summed a) ys \<longrightarrow> sorted_wrt (\<lambda>a b. summed b \<le> summed a) zs"
      using Cons by auto
    have "set zs = insert x (set ys)" using zs(2) by (metis list.simps(15) mset_eq_setD)
    then show ?thesis using True cmp zs by auto
  qed
qed

lemma array_sort_groups:
  assumes "\<forall>g \<in> set gs. parsable g"
  shows "\<exists>zs. array_sort compare_groups gs = Inr zs \<and> mset zs = mset gs
     \<and> sorted_wrt (\<lambda>a b. summed b \<le> summed a) zs"
  using assms
proof (induction gs)
  case Nil
  show ?case by simp
next
  case (Cons g gs)
  then obtain ys where ys: "array_sort compare_groups gs = Inr ys" "mset ys = mset gs"
    "sorted_wrt (\<lambda>a b. summed b \<le> summed a) ys" by auto
  have "set ys = set gs" using ys(2) by (rule mset_eq_setD)
  then have "\<forall>y \<in> set ys. parsable y" using Cons.prems by simp
  moreover have "parsable g" using Cons.prems by simp
  ultimately obtain zs where "insert_sorted compare_groups g ys = Inr zs" "mset zs = mset (g # ys)"
    "sorted_wrt (\<lambda>a b. summed b \<le> summed a) ys \<longrightarrow> sorted_wrt (\<lambda>a b. summed b \<le> summed a) zs"
    using insert_sorted_groups by blast
  then show ?case using ys by auto
qed

lemma split_at_char:
  assumes "c \<notin> set x" "c \<notin> set x'" "x @ c # y = x' @ c # y'"
  shows "x = x' \<and> y = y'"
proof -
  have "takeWhile (\<lambda>d. d \<noteq> c) (x @ c # y) = x"
    using assms(1) by (auto simp: takeWhile_tail)
  moreover have "takeWhile (\<lambda>d. d \<noteq> c) (x' @ c # y') = x'"
    using assms(2) by (auto simp: takeWhile_tail)
  ultimately have "x = x'" using assms(3) by simp
  with assms(3) show ?thesis by simp
qed

lemma group_key_pair:
  assumes "CHR ''_'' \<notin> set (toAddress a)" "CHR ''_'' \<notin> set (toAddress b)"
  shows "group_key a = group_key b \<longleftrightarrow> toAddress a = toAddress b \<and> token_label a = token_label b"
proof -
  have key: "group_key t = toAddress t @ CHR ''_'' # token_label t" for t
    by (simp add: group_key_def token_label_def)
  show ?thesis
    unfolding key using split_at_char [OF assms] by auto
qed

lemma mset_concat_cong:
  assumes "mset zs = mset gs"
  shows "mset (concat zs) = mset (concat gs)"
proof -
  have "mset (concat xss) = sum_mset (image_mset mset (mset xss))" for xss :: "'a list list"
    by (induction xss) simp_all
  then show ?thesis using assms by simp
qed

lemma amount_100: "StringToBigInt ''100'' = Some 100"
  by code_simp

lemma amount_200: "StringToBigInt ''200'' = Some 200"
  by code_simp

lemma amount_250: "StringToBigInt ''250'' = Some 250"
  by code_simp

lemma amount_fraction: "StringToBigInt ''1.5'' = None"
  by code_simp




subsection \<open>Terminal records\<close>




subsection \<open>A batch with one failing and one succeeding transaction\<close>

text \<open>
  Claim C2 as stated does not hold when the failing transaction comes first.  The hash of
  each iteration is pushed before its UPDATE is awaited, and the call returns the first
  hash pushed: here the record of the first transaction is \<open>failed\<close>, the record of the
  second is \<open>completed\<close> with hash \<open>0x3c4d\<close>, and the call returns \<open>0x1a2b\<close>.
\<close>

theorem returned_hash_of_failed_transaction:
  "fst (executeBatch (glitch_env (MarkCompleted 0)) [pending_1, pending_2]
          (example_world [pending_1, pending_2])) =
     Inr \<lparr>success = True, resultTxHash = Some ''0x1a2b'', gasUsed = Some 42000, error = None\<rparr>
   \<and> batched_transactions (snd (executeBatch (glitch_env (MarkCompleted 0)) [pending_1, pending_2]
          (example_world [pending_1, pending_2]))) =
     [pending_1\<lparr>status := failed, errorMessage := Some ''Connection terminated unexpectedly''\<rparr>,
      pending_2\<lparr>status := completed, executedAt := Some 1000, txHash := Some ''0x3c4d''\<rparr>]"
proof -
  have ne: "[pending_1, pending_2] \<noteq> []" by simp
  have c: "fault (glitch_env (MarkCompleted 0)) Connect = None"
    by (simp add: glitch_env_def)
  have ok: "surroundings_ok (glitch_env (MarkCompleted 0)) (length [pending_1, pending_2])"
    by (simp add: surroundings_ok_def glitch_env_def)
  show ?thesis
    using executeBatch_success [OF ne c ok, of "example_world [pending_1, pending_2]"]
    by (simp add: glitch_env_def offline_env_def no_fault_def pending_1_def pending_2_def
        example_row_def example_world_def set_executing_def settle_def)
qed

text \<open>
  Claim C2, amended.  For a batch of two transactions with different batch ids, in which
  the attempt of one (index \<open>k\<close>) throws and the attempt of the other goes through, and
  the store operations around them go through: every record with the batch id of the
  failing transaction is \<open>failed\<close> with the message, every record with the batch id of
  the other is \<open>completed\<close> with that transaction's hash, the other records are as
  before, and the call reports success with gas 42000 and the hash generated for the
  first transaction of the list (the succeeding transaction's hash when it comes first).
\<close>

theorem executeBatch_one_failure_one_success:
  assumes "batchId t1 \<noteq> batchId t2"
    and "fault env Connect = None" "fault env MarkExecuting = None"
    and "fault env AnalyticsConnect = None" "fault env SelectAnalytics = None"
      "fault env WriteAnalytics = None"
    and "k < 2" "fault env (MarkCompleted k) = Some e" "fault env (MarkFailed k) = None"
      "fault env (MarkCompleted (1 - k)) = None"
  shows "fst (executeBatch env [t1, t2] w) =
           Inr \<lparr>success = True, resultTxHash = Some (mockTxHash env 0), gasUsed = Some 42000,
                error = None\<rparr>
       \<and> batched_transactions (snd (executeBatch env [t1, t2] w)) =
           map (\<lambda>r. if batchId r = batchId ([t1, t2] ! k)
                     then r\<lparr>status := failed, errorMessage := Some e\<rparr>
                     else if batchId r = batchId ([t1, t2] ! (1 - k))
                     then r\<lparr>status := completed, executedAt := Some (now env),
                            txHash := Some (mockTxHash env (1 - k))\<rparr>
                     else r) (batched_transactions w)"
proof -
  have k: "k = 0 \<or> k = 1" using assms(7) by auto
  have steps: "\<forall>i<2. fault env (MarkCompleted i) \<noteq> None \<longrightarrow> fault env (MarkFailed i) = None"
  proof (intro allI impI)
    fix i :: nat
    assume "i < 2" and bad: "fault env (MarkCompleted i) \<noteq> None"
    then have i: "i = 0 \<or> i = 1" by auto
    have "i = k"
    proof (rule ccontr)
      assume "i \<noteq> k"
      with i k have "i = 1 - k" by auto
      with assms(10) bad show False by simp
    qed
    with assms(9) show "fault env (MarkFailed i) = None" by simp
  qed
  have ok: "surroundings_ok env (length [t1, t2])"
    using steps assms(3-6) by (simp add: surroundings_ok_def)
  have ne: "[t1, t2] \<noteq> []" by simp
  have d: "distinct (map batchId [t1, t2])" using assms(1) by simp
  have "batched_transactions (snd (executeBatch env [t1, t2] w)) =
      apply_steps env 0 [t1, t2] (set_executing (map batchId [t1, t2]) (batched_transactions w))"
    by (rule executeBatch_success(2) [OF ne assms(2) ok])
  also have "\<dots> = map (recorded_outcome env 0 [t1, t2])
      (set_executing (map batchId [t1, t2]) (batched_transactions w))"
    by (rule apply_steps_outcome [OF d])
  also have "\<dots> = map (recorded_outcome env 0 [t1, t2]) (batched_transactions w)"
    by (rule recorded_outcome_set_executing)
  finally have rows: "batched_transactions (snd (executeBatch env [t1, t2] w)) =
      map (recorded_outcome env 0 [t1, t2]) (batched_transactions w)" .
  have out: "recorded_outcome env 0 [t1, t2] =
      (\<lambda>r. if batchId r = batchId ([t1, t2] ! k)
                     then r\<lparr>status := failed, errorMessage := Some e\<rparr>
                     else if batchId r = batchId ([t1, t2] ! (1 - k))
                     then r\<lparr>status := completed, executedAt := Some (now env),
                            txHash := Some (mockTxHash env (1 - k))\<rparr>
                     else r)"
  proof (rule ext)
    fix r
    from k show "recorded_outcome env 0 [t1, t2] r =
      (if batchId r = batchId ([t1, t2] ! k)
                     then r\<lparr>status := failed, errorMessage := Some e\<rparr>
                     else if batchId r = batchId ([t1, t2] ! (1 - k))
                     then r\<lparr>status := completed, executedAt := Some (now env),
                            txHash := Some (mockTxHash env (1 - k))\<rparr>
                     else r)"
    proof
      assume k0: "k = 0"
      then have f: "fault env (MarkCompleted 0) = Some e" "fault env (MarkCompleted (Suc 0)) = None"
        using assms(8,10) by simp_all
      show ?thesis
        using assms(1) by (simp add: recorded_outcome_def settle_def k0 f)
    next
      assume k1: "k = 1"
      then have f: "fault env (MarkCompleted (Suc 0)) = Some e" "fault env (MarkCompleted 0) = None"
        using assms(8,10) by simp_all
      show ?thesis
        using assms(1) by (simp add: recorded_outcome_def settle_def k1 f)
    qed
  qed
  have res: "fst (executeBatch env [t1, t2] w) =
           Inr \<lparr>success = True, resultTxHash = Some (mockTxHash env 0), gasUsed = Some 42000,
                error = None\<rparr>"
    using executeBatch_success(1) [OF ne assms(2) ok, of w] by simp
  show ?thesis
    using res rows by (simp only: out)
qed


theorem executeBatch_one_failure_one_success_witness:
  "fst (executeBatch (glitch_env (MarkCompleted 1)) [pending_1, pending_2]
          (example_world [pending_1, pending_2])) =
     Inr \<lparr>success = True, resultTxHash = Some ''0x1a2b'', gasUsed = Some 42000, error = None\<rparr>
   \<and> batched_transactions (snd (executeBatch (glitch_env (MarkCompleted 1)) [pending_1, pending_2]
          (example_world [pending_1, pending_2]))) =
     [pending_1\<lparr>status := completed, executedAt := Some 1000, txHash := Some ''0x1a2b''\<rparr>,
      pending_2\<lparr>status := failed, errorMessage := Some ''Connection terminated unexpectedly''\<rparr>]"
  using executeBatch_one_failure_one_success
          [of pending_1 pending_2 "glitch_env (MarkCompleted 1)" 1
              "''Connection terminated unexpectedly''" "example_world [pending_1, pending_2]"]
  by (simp add: glitch_env_def offline_env_def no_fault_def pending_1_def pending_2_def
      example_row_def example_world_def)

subsection \<open>Validation at the route\<close>



subsection \<open>Enqueueing when the network is down\<close>

text \<open>
  Claim C4.  When the network client's gas estimation fails, \<open>addToBatch\<close> persists the
  transaction with gas estimate 21000 and status \<open>pending\<close> and returns its batch id; the
  only failures left are those of the store (the connection, the INSERT).
\<close>

theorem addToBatch_gas_fallback:
  assumes "\<And>t. isl (estimateGas env t)"
  shows "addToBatch env user to amt token sched w =
     (case fault env Connect of
        Some e \<Rightarrow> (Inl e, w)
      | None \<Rightarrow>
         (case fault env InsertTransaction of
            Some e \<Rightarrow> (Inl (''Failed to add transaction to batch: '' @ e), w)
          | None \<Rightarrow>
             (Inr (generateBatchId env),
              w\<lparr>batched_transactions := batched_transactions w @
                [\<lparr>batchId = generateBatchId env, userAddress = user, toAddress = to,
                  amount = amt, tokenAddress = token, gasEstimate = Some 21000,
                  status = pending, scheduledFor = sched, createdAt = now env,
                  executedAt = None, txHash = None, errorMessage = None\<rparr>]\<rparr>)))"
  by (simp add: addToBatch_def bindE_def catchE_def connect_def query_def returnE_def throwE_def
      estimateTransactionGas_fallback [OF assms] split: option.splits)

theorem addToBatch_gas_fallback_witness:
  "addToBatch offline_env address_a address_b ''1000000000000000000'' None None (example_world []) =
     (Inr ''batch_1000_k3x9q2m1z'',
      example_world [example_row ''batch_1000_k3x9q2m1z'' ''1000000000000000000'' pending
                       \<lparr>createdAt := 1000\<rparr>])"
proof -
  have h: "\<And>t. isl (estimateGas offline_env t)"
    by (simp add: offline_env_def)
  show ?thesis
    using addToBatch_gas_fallback
            [OF h, of address_a address_b "''1000000000000000000''" None None "example_world []"]
    by (simp add: offline_env_def no_fault_def example_world_def example_row_def)
qed

subsection \<open>Optimizing a batch\<close>

text \<open>
  Claim C5 as stated does not hold.  The groups are keyed by the string
  \<open>toAddress_token\<close>, in which an absent or empty token reads \<open>native\<close>: a native
  transfer and a transfer of a token called \<open>native\<close> to the same recipient share a
  group.  And the comparison of two groups converts every amount with \<open>BigInt\<close>: with an
  amount such as \<open>1.5\<close>, which the route accepts, and two groups, the call throws.
\<close>

theorem optimizeBatch_merges_and_throws:
  "optimizeBatch [native_transfer, named_native_transfer] =
     Inr [[native_transfer, named_native_transfer]]
   \<and> tokenAddress native_transfer = None
   \<and> tokenAddress named_native_transfer = Some ''native''
   \<and> optimizeBatch [fractional_transfer, native_transfer] = Inl (SyntaxError ''1.5'')"
  by (simp add: optimizeBatch_def groups_push_def group_key_def compare_groups_def
      native_transfer_def named_native_transfer_def fractional_transfer_def example_row_def
      address_a_def address_b_def amount_100 amount_200 amount_fraction)

text \<open>
  Claim C5, amended.  For every list of transactions whose amounts all convert to BigInt,
  \<open>optimizeBatch\<close> returns a partition of the list by the key \<open>toAddress_token\<close> (an
  absent or empty token reading \<open>native\<close>): the groups together are a permutation of the
  input, each group is non-empty and holds precisely the input transactions with the key of
  its first member, in input order, different groups have different keys, and the groups
  are ordered by descending summed amount.  For recipients without an underscore, such as
  validated addresses, two keys are equal exactly when recipient and token label are.
\<close>

theorem optimizeBatch_partition:
  assumes "\<forall>tx \<in> set transactions. StringToBigInt (amount tx) \<noteq> None"
  shows "(\<exists>groups. optimizeBatch transactions = Inr groups
       \<and> mset (concat groups) = mset transactions
       \<and> (\<forall>g \<in> set groups.
            g \<noteq> [] \<and> g = filter (\<lambda>tx. group_key tx = group_key (hd g)) transactions)
       \<and> distinct (map (\<lambda>g. group_key (hd g)) groups)
       \<and> sorted_wrt (\<lambda>a b. summed b \<le> summed a) groups)
     \<and> (\<forall>a b. CHR ''_'' \<notin> set (toAddress a) \<and> CHR ''_'' \<notin> set (toAddress b) \<longrightarrow>
          (group_key a = group_key b \<longleftrightarrow>
             toAddress a = toAddress b \<and> token_label a = token_label b))"
proof
  define G where "G = foldl groups_push [] transactions"
  have G: "grouped G transactions"
    using grouped_foldl [OF grouped_empty, of transactions] by (simp add: G_def)
  have each: "g \<noteq> [] \<and> group_key (hd g) = k \<and> g = filter (\<lambda>t. group_key t = k) transactions"
    if "(k, g) \<in> set G" for k g
    using G that by (rule grouped_nonempty)
  have pars: "\<forall>g \<in> set (map snd G). parsable g"
  proof
    fix g assume "g \<in> set (map snd G)"
    then obtain k where "(k, g) \<in> set G" by auto
    then have "g = filter (\<lambda>t. group_key t = k) transactions" using each by simp
    then have "set g \<subseteq> set transactions" by auto
    then show "parsable g" using assms by (auto simp: parsable_def)
  qed
  obtain zs where zs: "array_sort compare_groups (map snd G) = Inr zs"
    "mset zs = mset (map snd G)" "sorted_wrt (\<lambda>a b. summed b \<le> summed a) zs"
    using array_sort_groups [OF pars] by blast
  have set_zs: "set zs = set (map snd G)" using zs(2) by (rule mset_eq_setD)
  have part: "mset (concat zs) = mset transactions"
    using mset_concat_cong [OF zs(2)] grouped_partition [OF G] by simp
  have groups: "\<forall>g \<in> set zs.
      g \<noteq> [] \<and> g = filter (\<lambda>tx. group_key tx = group_key (hd g)) transactions"
  proof
    fix g assume "g \<in> set zs"
    then obtain k where "(k, g) \<in> set G" using set_zs by auto
    from each [OF this] have ne: "g \<noteq> []" and key: "group_key (hd g) = k"
      and g: "g = filter (\<lambda>t. group_key t = k) transactions" by blast+
    have "g = filter (\<lambda>tx. group_key tx = group_key (hd g)) transactions"
      by (subst key) (rule g)
    with ne
    show "g \<noteq> [] \<and> g = filter (\<lambda>tx. group_key tx = group_key (hd g)) transactions" ..
  qed
  have keys: "map (\<lambda>g. group_key (hd g)) (map snd G) = map fst G"
    using each by (auto simp: map_eq_conv)
  have "distinct (map fst G)" using G by (simp add: grouped_def)
  then have "distinct (map (\<lambda>g. group_key (hd g)) (map snd G))" by (simp only: keys)
  moreover have "mset (map (\<lambda>g. group_key (hd g)) zs) =
      mset (map (\<lambda>g. group_key (hd g)) (map snd G))"
    by (simp only: mset_map [of "\<lambda>g. group_key (hd g)"] zs(2))
  ultimately have dist: "distinct (map (\<lambda>g. group_key (hd g)) zs)"
    by (metis mset_eq_imp_distinct_iff)
  show "\<exists>groups. optimizeBatch transactions = Inr groups
       \<and> mset (concat groups) = mset transactions
       \<and> (\<forall>g \<in> set groups.
            g \<noteq> [] \<and> g = filter (\<lambda>tx. group_key tx = group_key (hd g)) transactions)
       \<and> distinct (map (\<lambda>g. group_key (hd g)) groups)
       \<and> sorted_wrt (\<lambda>a b. summed b \<le> summed a) groups"
    using zs(1,3) part groups dist by (auto simp: optimizeBatch_def G_def)
next
  show "\<forall>a b. CHR ''_'' \<notin> set (toAddress a) \<and> CHR ''_'' \<notin> set (toAddress b) \<longrightarrow>
          (group_key a = group_key b \<longleftrightarrow>
             toAddress a = toAddress b \<and> token_label a = token_label b)"
    using group_key_pair by blast
qed

theorem optimizeBatch_partition_witness:
  "StringToBigInt (amount native_transfer) \<noteq> None
   \<and> StringToBigInt (amount token_transfer) \<noteq> None
   \<and> (\<exists>groups. optimizeBatch [native_transfer, token_transfer] = Inr groups
       \<and> mset (concat groups) = mset [native_transfer, token_transfer]
       \<and> sorted_wrt (\<lambda>a b. summed b \<le> summed a) groups)"
proof -
  have h1: "StringToBigInt (amount native_transfer) \<noteq> None"
    by (simp add: native_transfer_def example_row_def amount_100)
  have h2: "StringToBigInt (amount token_transfer) \<noteq> None"
    by (simp add: token_transfer_def example_row_def amount_250)
  have h: "\<forall>tx \<in> set [native_transfer, token_transfer]. StringToBigInt (amount tx) \<noteq> None"
    using h1 h2 by simp
  show ?thesis
    using h1 h2 optimizeBatch_partition [OF h] by blast
qed

subsection \<open>Auto-batching below the threshold\<close>

text \<open>
  Claim C6.  When \<open>processAutoBatching\<close> fetches fewer pending transactions than
  \<open>minTransactionCount\<close>, it returns normally and the world is unchanged: no record and no
  analytics row is touched.
\<close>

theorem processAutoBatching_noop:
  assumes "getPendingTransactions env (maxBatchSize config) w = (Inr pendingTransactions, w')"
    and "int (length pendingTransactions) < minTransactionCount config"
  shows "processAutoBatching env benv config w = (Inr (), w)"
proof -
  have "w' = w"
    using getPendingTransactions_world [of env "maxBatchSize config" w] assms(1) by simp
  with assms show ?thesis
    by (simp add: processAutoBatching_def bindE_def returnE_def)
qed

theorem processAutoBatching_noop_witness:
  "getPendingTransactions offline_env (maxBatchSize example_config) (example_world three_pending) =
     (Inr three_pending, example_world three_pending)
   \<and> int (length three_pending) < minTransactionCount example_config
   \<and> processAutoBatching offline_env (\<lambda>k. offline_env) example_config (example_world three_pending) =
     (Inr (), example_world three_pending)"
proof -
  have h1: "getPendingTransactions offline_env (maxBatchSize example_config)
              (example_world three_pending) = (Inr three_pending, example_world three_pending)"
    by (simp add: getPendingTransactions_def bindE_def connect_def returnE_def offline_env_def
        no_fault_def example_config_def example_world_def three_pending_def example_row_def)
  have h2: "int (length three_pending) < minTransactionCount example_config"
    by (simp add: three_pending_def example_config_def)
  show ?thesis
    using h1 h2 processAutoBatching_noop [OF h1 h2, of "\<lambda>k. offline_env"] by simp
qed

subsection \<open>When a batch fails as a whole\<close>

text \<open>
  Claim C8 as stated does not hold: a non-empty batch fails as a whole when a store
  operation outside the attempts throws.  Here the statement that marks the batch as
  executing throws; the outer handler marks the record failed and reports failure.
\<close>

theorem nonempty_batch_fails_wholesale:
  "executeBatch (glitch_env MarkExecuting) [pending_1] (example_world [pending_1]) =
     (Inr \<lparr>success = False, resultTxHash = None, gasUsed = None,
           error = Some ''Connection terminated unexpectedly''\<rparr>,
      example_world
        [pending_1\<lparr>status := failed, errorMessage := Some ''Connection terminated unexpectedly''\<rparr>])"
  by (simp add: executeBatch_def bindE_def catchE_def connect_def query_def returnE_def
      glitch_env_def offline_env_def no_fault_def example_world_def set_failed_def)

text \<open>
  Claim C8, amended.  \<open>executeBatch\<close> reports the failure \<open>No transactions to execute\<close>
  for the empty list and leaves the world as it is.  For a non-empty list it reports
  success exactly when the connection is obtained and the store operations outside the
  attempts go through (the marking as executing, the recording of each failed attempt, the
  analytics update), however many attempts fail.  When it reports success and the batch
  ids of the list are distinct, each record carries the outcome of the transaction with its
  batch id (completed with that hash, or failed with that message), and a record that no
  transaction names is unchanged.
\<close>

theorem executeBatch_wholesale_failure:
  "executeBatch env [] w =
     (Inr \<lparr>success = False, resultTxHash = None, gasUsed = None,
           error = Some ''No transactions to execute''\<rparr>, w)
   \<and> (transactions \<noteq> [] \<longrightarrow>
        (reports_success (fst (executeBatch env transactions w)) \<longleftrightarrow>
           fault env Connect = None \<and> surroundings_ok env (length transactions)))
   \<and> (transactions \<noteq> [] \<and> fault env Connect = None
        \<and> surroundings_ok env (length transactions) \<and> distinct (map batchId transactions) \<longrightarrow>
        batched_transactions (snd (executeBatch env transactions w)) =
          map (recorded_outcome env 0 transactions) (batched_transactions w))"
proof (intro conjI impI)
  show "executeBatch env [] w =
     (Inr \<lparr>success = False, resultTxHash = None, gasUsed = None,
           error = Some ''No transactions to execute''\<rparr>, w)"
    by (simp add: executeBatch_def returnE_def)
next
  assume ne: "transactions \<noteq> []"
  show "reports_success (fst (executeBatch env transactions w)) \<longleftrightarrow>
           fault env Connect = None \<and> surroundings_ok env (length transactions)"
  proof (cases "fault env Connect")
    case (Some e)
    with ne show ?thesis
      by (simp add: executeBatch_def bindE_def connect_def reports_success_def)
  next
    case None
    show ?thesis
    proof (cases "surroundings_ok env (length transactions)")
      case True
      with None executeBatch_success(1) [OF ne None True, of w] show ?thesis
        by (simp add: reports_success_def)
    next
      case False
      with None executeBatch_failure [OF ne None False, of w] show ?thesis by simp
    qed
  qed
next
  assume a: "transactions \<noteq> [] \<and> fault env Connect = None
        \<and> surroundings_ok env (length transactions) \<and> distinct (map batchId transactions)"
  then have ne: "transactions \<noteq> []" and c: "fault env Connect = None"
    and ok: "surroundings_ok env (length transactions)"
    and d: "distinct (map batchId transactions)" by simp_all
  have "batched_transactions (snd (executeBatch env transactions w)) =
      apply_steps env 0 transactions
        (set_executing (map batchId transactions) (batched_transactions w))"
    by (rule executeBatch_success(2) [OF ne c ok])
  also have "\<dots> = map (recorded_outcome env 0 transactions)
      (set_executing (map batchId transactions) (batched_transactions w))"
    by (rule apply_steps_outcome [OF d])
  also have "\<dots> = map (recorded_outcome env 0 transactions) (batched_transactions w)"
    by (rule recorded_outcome_set_executing)
  finally show "batched_transactions (snd (executeBatch env transactions w)) =
          map (recorded_outcome env 0 transactions) (batched_transactions w)" .
qed


theorem executeBatch_wholesale_failure_witness:
  "reports_success (fst (executeBatch (glitch_env (MarkCompleted 1))
      [pending_1, pending_2, pending_3] (example_world [pending_1, pending_2, pending_3])))
   \<and> batched_transactions (snd (executeBatch (glitch_env (MarkCompleted 1))
      [pending_1, pending_2, pending_3] (example_world [pending_1, pending_2, pending_3]))) =
     [pending_1\<lparr>status := completed, executedAt := Some 1000, txHash := Some ''0x1a2b''\<rparr>,
      pending_2\<lparr>status := failed, errorMessage := Some ''Connection terminated unexpectedly''\<rparr>,
      pending_3\<lparr>status := completed, executedAt := Some 1000, txHash := Some ''0x3c4d''\<rparr>]"
proof -
  have ok: "surroundings_ok (glitch_env (MarkCompleted 1)) (length [pending_1, pending_2, pending_3])"
    by (simp add: surroundings_ok_def glitch_env_def)
  have c: "fault (glitch_env (MarkCompleted 1)) Connect = None"
    by (simp add: glitch_env_def)
  have d: "distinct (map batchId [pending_1, pending_2, pending_3])"
    by (simp add: pending_1_def pending_2_def pending_3_def example_row_def)
  show ?thesis
    using executeBatch_wholesale_failure
            [of "glitch_env (MarkCompleted 1)" "example_world [pending_1, pending_2, pending_3]"
                "[pending_1, pending_2, pending_3]"] ok c d
    by (simp add: recorded_outcome_def settle_def example_world_def)
       (simp add: glitch_env_def offline_env_def pending_1_def pending_2_def pending_3_def
        example_row_def)
qed

subsection \<open>The amount handed to the wallet\<close>



subsection \<open>The batch-savings estimator\<close>



text \<open>
  Claim C10.  For the empty list the sum is 0, the batch gas is 21000 (\<open>0x5208\<close>), the
  savings are \<open>0 - 21000\<close>, rendered \<open>0x-5208\<close>, and the percentage is the Number
  quotient \<open>-21000 / 0\<close> times 100, that is \<open>-Infinity\<close>; the estimator returns this
  record instead of failing.  The route POST /api/shardeum only checks that the field is an
  array, so it answers an empty array with status 200 and this record.
\<close>

theorem estimateBatchGasSavings_empty:
  "estimateBatchGasSavings env [] =
     Inr \<lparr>individualGas = [], batchGas = ''0x5208'', totalSavings = ''0x-5208'',
          savingsPercentage = NegInf\<rparr>
   \<and> POST_shardeum env (Some []) =
     \<lparr>http_status = 200,
      body = SavingsData \<lparr>individualGas = [], batchGas = ''0x5208'', totalSavings = ''0x-5208'',
          savingsPercentage = NegInf\<rparr>\<rparr>"
  by (simp add: POST_shardeum_def estimateBatchGasSavings_def Let_def zero_times empty_batch_gas
      empty_savings empty_percentage hex_21000 hex_minus_21000)

end
